theory Spec2Isabelle
  imports Main "HOL-Library.Word"
begin

unbundle bit_operations_syntax

section \<open>Bytes, errors and the struct module\<close>

text \<open>
  A Python \<open>bytes\<close> object is a list of 8-bit words. The header fields are Python
  integers, hence unbounded: they are \<open>int\<close>, and \<open>struct.pack\<close> decides at run time
  whether a value fits its format.

  The exceptions that can leave the functions of \<open>packet.py\<close>: the \<open>ValueError\<close>
  that \<open>TACACSHeader.unpacked\<close> raises itself; \<open>struct.error\<close> (not a subclass of
  \<open>ValueError\<close>), raised by \<open>struct.pack\<close> on a value out of the range of its format
  and by \<open>struct.unpack\<close> on a buffer whose size is not the size of its format;
  \<open>IndexError\<close>, raised by \<open>pop\<close> on an empty list; and the failure of
  \<open>six.b(None)\<close> when the \<open>crypt\<close> property of a packet without a secret is read
  (\<open>AttributeError\<close> on Python 3, \<open>TypeError\<close> at the concatenation on Python 2),
  written \<open>NoSecret\<close>.
\<close>

type_synonym byte = "8 word"
type_synonym u32 = "32 word"

datatype error = ValueError | StructError | IndexError | NoSecret

text \<open>\<open>struct.pack('B', v)\<close>: one unsigned byte, for \<open>0 \<le> v \<le> 255\<close>.\<close>

definition pack_B :: "int \<Rightarrow> error + byte list" where
  "pack_B v = (if 0 \<le> v \<and> v \<le> 255 then Inr [word_of_int v] else Inl StructError)"

text \<open>\<open>struct.pack('!I', v)\<close>: four bytes, most significant first, for \<open>0 \<le> v < 2^32\<close>.\<close>

definition pack_I :: "int \<Rightarrow> error + byte list" where
  "pack_I v =
     (if 0 \<le> v \<and> v \<le> 4294967295
      then Inr [word_of_int (v div 16777216), word_of_int (v div 65536),
                word_of_int (v div 256), word_of_int v]
      else Inl StructError)"

text \<open>\<open>struct.pack('BBBB', a, b, c, d)\<close>.\<close>

definition pack_BBBB :: "int \<Rightarrow> int \<Rightarrow> int \<Rightarrow> int \<Rightarrow> error + byte list" where
  "pack_BBBB a b c d =
     (case pack_B a of Inl e \<Rightarrow> Inl e | Inr x \<Rightarrow>
       (case pack_B b of Inl e \<Rightarrow> Inl e | Inr y \<Rightarrow>
         (case pack_B c of Inl e \<Rightarrow> Inl e | Inr z \<Rightarrow>
           (case pack_B d of Inl e \<Rightarrow> Inl e | Inr w \<Rightarrow> Inr (x @ y @ z @ w)))))"

text \<open>\<open>struct.unpack('BBBB', buf)\<close>: the buffer must hold exactly four bytes.\<close>

fun unpack_BBBB :: "byte list \<Rightarrow> error + (int \<times> int \<times> int \<times> int)" where
  "unpack_BBBB [a, b, c, d] = Inr (uint a, uint b, uint c, uint d)"
| "unpack_BBBB _ = Inl StructError"

text \<open>The unsigned big-endian value of four bytes.\<close>

definition be32 :: "byte \<Rightarrow> byte \<Rightarrow> byte \<Rightarrow> byte \<Rightarrow> int" where
  "be32 a b c d = uint a * 16777216 + uint b * 65536 + uint c * 256 + uint d"

text \<open>\<open>struct.unpack('!II', buf)\<close>: the buffer must hold exactly eight bytes.\<close>

fun unpack_II :: "byte list \<Rightarrow> error + (int \<times> int)" where
  "unpack_II [a, b, c, d, e, f, g, h] = Inr (be32 a b c d, be32 e f g h)"
| "unpack_II _ = Inl StructError"

section \<open>The MD5 digest of hashlib\<close>

text \<open>
  \<open>hashlib.md5(m).digest()\<close> is the message digest of RFC 1321: the message is padded
  with the byte \<open>0x80\<close>, zero bytes up to 56 modulo 64, and its bit length as 64 bits,
  least significant byte first; every block of 64 bytes, read as sixteen little-endian
  32-bit words, goes through 64 steps on a state of four words; the digest is the final
  state, least significant byte first.
\<close>

definition rotl32 :: "u32 \<Rightarrow> nat \<Rightarrow> u32" where
  "rotl32 x c = push_bit c x OR drop_bit (32 - c) x"

definition md5_K :: "u32 list" where
  "md5_K =
    [0xd76aa478, 0xe8c7b756, 0x242070db, 0xc1bdceee,
     0xf57c0faf, 0x4787c62a, 0xa8304613, 0xfd469501,
     0x698098d8, 0x8b44f7af, 0xffff5bb1, 0x895cd7be,
     0x6b901122, 0xfd987193, 0xa679438e, 0x49b40821,
     0xf61e2562, 0xc040b340, 0x265e5a51, 0xe9b6c7aa,
     0xd62f105d, 0x02441453, 0xd8a1e681, 0xe7d3fbc8,
     0x21e1cde6, 0xc33707d6, 0xf4d50d87, 0x455a14ed,
     0xa9e3e905, 0xfcefa3f8, 0x676f02d9, 0x8d2a4c8a,
     0xfffa3942, 0x8771f681, 0x6d9d6122, 0xfde5380c,
     0xa4beea44, 0x4bdecfa9, 0xf6bb4b60, 0xbebfbc70,
     0x289b7ec6, 0xeaa127fa, 0xd4ef3085, 0x04881d05,
     0xd9d4d039, 0xe6db99e5, 0x1fa27cf8, 0xc4ac5665,
     0xf4292244, 0x432aff97, 0xab9423a7, 0xfc93a039,
     0x655b59c3, 0x8f0ccc92, 0xffeff47d, 0x85845dd1,
     0x6fa87e4f, 0xfe2ce6e0, 0xa3014314, 0x4e0811a1,
     0xf7537e82, 0xbd3af235, 0x2ad7d2bb, 0xeb86d391]"

definition md5_s :: "nat list" where
  "md5_s =
    [7, 12, 17, 22, 7, 12, 17, 22, 7, 12, 17, 22, 7, 12, 17, 22,
     5, 9, 14, 20, 5, 9, 14, 20, 5, 9, 14, 20, 5, 9, 14, 20,
     4, 11, 16, 23, 4, 11, 16, 23, 4, 11, 16, 23, 4, 11, 16, 23,
     6, 10, 15, 21, 6, 10, 15, 21, 6, 10, 15, 21, 6, 10, 15, 21]"

text \<open>A 32-bit word from bytes, and its four bytes, least significant first.\<close>

definition le_word :: "byte list \<Rightarrow> u32" where
  "le_word bs = foldr (\<lambda>b w. ucast b OR push_bit 8 w) bs 0"

definition le_bytes :: "u32 \<Rightarrow> byte list" where
  "le_bytes w = [ucast w, ucast (drop_bit 8 w), ucast (drop_bit 16 w), ucast (drop_bit 24 w)]"

definition md5_length_bytes :: "nat \<Rightarrow> byte list" where
  "md5_length_bytes n = map (\<lambda>k. ucast (drop_bit (8 * k) (word_of_nat n :: 64 word))) [0..<8]"

definition md5_pad :: "byte list \<Rightarrow> byte list" where
  "md5_pad m =
     m @ [0x80] @ replicate ((119 - length m mod 64) mod 64) 0
       @ md5_length_bytes (8 * length m)"

definition md5_blocks :: "byte list \<Rightarrow> u32 list list" where
  "md5_blocks p =
     map (\<lambda>k. map (\<lambda>j. le_word (take 4 (drop (64 * k + 4 * j) p))) [0..<16])
       [0..<length p div 64]"

definition md5_step :: "u32 list \<Rightarrow> u32 \<times> u32 \<times> u32 \<times> u32 \<Rightarrow> nat \<Rightarrow> u32 \<times> u32 \<times> u32 \<times> u32" where
  "md5_step M st i =
     (case st of (a, b, c, d) \<Rightarrow>
       (let f = (if i < 16 then (b AND c) OR (NOT b AND d)
                 else if i < 32 then (d AND b) OR (NOT d AND c)
                 else if i < 48 then b XOR c XOR d
                 else c XOR (b OR NOT d));
            g = (if i < 16 then i
                 else if i < 32 then (5 * i + 1) mod 16
                 else if i < 48 then (3 * i + 5) mod 16
                 else (7 * i) mod 16)
        in (d, b + rotl32 (a + f + md5_K ! i + M ! g) (md5_s ! i), b, c)))"

definition md5_block :: "u32 \<times> u32 \<times> u32 \<times> u32 \<Rightarrow> u32 list \<Rightarrow> u32 \<times> u32 \<times> u32 \<times> u32" where
  "md5_block st M =
     (case st of (a0, b0, c0, d0) \<Rightarrow>
      case foldl (md5_step M) st [0..<64] of (a, b, c, d) \<Rightarrow>
        (a0 + a, b0 + b, c0 + c, d0 + d))"

definition md5_digest :: "byte list \<Rightarrow> byte list" where
  "md5_digest m =
     (case foldl md5_block (0x67452301, 0xefcdab89, 0x98badcfe, 0x10325476)
             (md5_blocks (md5_pad m)) of
        (a, b, c, d) \<Rightarrow> le_bytes a @ le_bytes b @ le_bytes c @ le_bytes d)"

lemma md5_digest_length: "length (md5_digest m) = 16"
  by (simp add: md5_digest_def le_bytes_def split: prod.split)


section \<open>The header\<close>

text \<open>
  \<open>class TACACSHeader\<close>. The fields \<open>type\<close> and \<open>length\<close> carry a suffix, as
  their names are taken in HOL.
\<close>

record TACACSHeader =
  version :: int
  type_field :: int
  session_id :: int
  length_field :: int
  seq_no :: int
  flags :: int

definition version_max :: "TACACSHeader \<Rightarrow> int" where
  "version_max h = version h div 16"

definition version_min :: "TACACSHeader \<Rightarrow> int" where
  "version_min h = version h mod 16"

text \<open>The property \<open>packed\<close>: three calls of \<open>struct.pack\<close>, concatenated.\<close>

definition packed :: "TACACSHeader \<Rightarrow> error + byte list" where
  "packed h =
     (case pack_BBBB (version h) (type_field h) (seq_no h) (flags h) of
        Inl e \<Rightarrow> Inl e
      | Inr a \<Rightarrow>
         (case pack_I (session_id h) of Inl e \<Rightarrow> Inl e | Inr b \<Rightarrow>
           (case pack_I (length_field h) of Inl e \<Rightarrow> Inl e | Inr c \<Rightarrow> Inr (a @ b @ c))))"

text \<open>
  \<open>six.BytesIO(raw)\<close> is a read position in \<open>raw\<close>; the model keeps the bytes not yet
  read. \<open>read(n)\<close> returns at most \<open>n\<close> of them, fewer at the end of the buffer.
\<close>

definition read :: "nat \<Rightarrow> byte list \<Rightarrow> byte list \<times> byte list" where
  "read n stream = (take n stream, drop n stream)"

text \<open>
  The class method \<open>unpacked\<close>. The test \<open>if raw_chars\<close> is the truth value of a
  \<open>bytes\<close> object: false for the empty one only.
\<close>

definition unpacked :: "byte list \<Rightarrow> error + TACACSHeader" where
  "unpacked raw =
     (case read 4 raw of (raw_chars, stream) \<Rightarrow>
        if raw_chars \<noteq> [] then
          (case unpack_BBBB raw_chars of Inl e \<Rightarrow> Inl e | Inr (v, t, s, f) \<Rightarrow>
            (case unpack_II (fst (read 8 stream)) of Inl e \<Rightarrow> Inl e | Inr (sid, len) \<Rightarrow>
               Inr \<lparr>version = v, type_field = t, session_id = sid, length_field = len,
                    seq_no = s, flags = f\<rparr>))
        else Inl ValueError)"

section \<open>Obfuscation of the body\<close>

text \<open>
  \<open>six.b(secret)\<close> is the identity on a Python 2 \<open>str\<close> and the Latin-1 encoding of a
  Python 3 \<open>str\<close>: in both, the character of code \<open>c\<close> becomes the byte \<open>c\<close>. The
  secret is a list of 8-bit characters.
\<close>

definition six_b :: "string \<Rightarrow> byte list" where
  "six_b s = map of_char s"

text \<open>
  The \<open>while True\<close> loop of \<open>crypt\<close>: one more hash of \<open>unhashed + hashed\<close> is
  appended to the pad, until the pad is at least as long as the body. It ends because a
  digest is not empty.
\<close>

function pad_loop :: "byte list \<Rightarrow> nat \<Rightarrow> byte list \<Rightarrow> byte list \<Rightarrow> byte list" where
  "pad_loop unhashed body_length hashed pad =
     (let hashed' = md5_digest (unhashed @ hashed);
          pad' = pad @ hashed'
      in if length pad' \<ge> body_length then pad' else pad_loop unhashed body_length hashed' pad')"
  by pat_completeness auto
termination
  by (relation "measure (\<lambda>(unhashed, body_length, hashed, pad). body_length - length pad)")
     (auto simp: md5_digest_length)

declare pad_loop.simps [simp del]

text \<open>Lines 53 to 61: the pad before it is cut to the length of the body.\<close>

definition pseudo_pad :: "byte list \<Rightarrow> nat \<Rightarrow> byte list" where
  "pseudo_pad unhashed body_length =
     (let hashed = md5_digest unhashed in
      if length hashed < body_length then pad_loop unhashed body_length hashed hashed
      else hashed)"

text \<open>
  The last loop: every byte of the body is combined with the byte that \<open>pad.pop(0)\<close>
  takes from the front of the pad; \<open>pop\<close> on an empty list raises \<open>IndexError\<close>. The
  exclusive or of two integers below 256 is the exclusive or of the two bytes.
\<close>

fun xor_loop :: "byte list \<Rightarrow> byte list \<Rightarrow> byte list \<Rightarrow> error + byte list" where
  "xor_loop [] pad packet_body = Inr packet_body"
| "xor_loop (x # xs) [] packet_body = Inl IndexError"
| "xor_loop (x # xs) (p # pad) packet_body = xor_loop xs pad (packet_body @ [x XOR p])"

text \<open>Lines 47 to 52: the bytes that are hashed, from the header and the secret.\<close>

definition unhashed :: "TACACSHeader \<Rightarrow> string \<Rightarrow> error + byte list" where
  "unhashed header secret =
     (case pack_I (session_id header) of Inl e \<Rightarrow> Inl e | Inr sid \<Rightarrow>
       (case pack_B (version header) of Inl e \<Rightarrow> Inl e | Inr ver \<Rightarrow>
         (case pack_B (seq_no header) of Inl e \<Rightarrow> Inl e | Inr sq \<Rightarrow>
            Inr (sid @ six_b secret @ ver @ sq))))"

definition crypt :: "TACACSHeader \<Rightarrow> byte list \<Rightarrow> string \<Rightarrow> error + byte list" where
  "crypt header body_bytes secret =
     (let body_length = length body_bytes in
      case unhashed header secret of
        Inl e \<Rightarrow> Inl e
      | Inr u \<Rightarrow>
          (let pad = pseudo_pad u body_length;
               pad = take body_length pad
           in xor_loop body_bytes pad []))"

section \<open>The packet\<close>

record TACACSPacket =
  header :: TACACSHeader
  body_bytes :: "byte list"
  secret :: "string option"

definition encrypted :: "TACACSPacket \<Rightarrow> bool" where
  "encrypted p = (secret p \<noteq> None)"

text \<open>The property \<open>crypt\<close> of a packet.\<close>

definition packet_crypt :: "TACACSPacket \<Rightarrow> error + byte list" where
  "packet_crypt p =
     (case secret p of None \<Rightarrow> Inl NoSecret
      | Some s \<Rightarrow> crypt (header p) (body_bytes p) s)"

definition body :: "TACACSPacket \<Rightarrow> error + byte list" where
  "body p = (if encrypted p then packet_crypt p else Inr (body_bytes p))"

text \<open>\<open>__bytes__\<close>: \<open>self.header.packed + self.body\<close>, the header evaluated first.\<close>

definition packet_bytes :: "TACACSPacket \<Rightarrow> error + byte list" where
  "packet_bytes p =
     (case packed (header p) of Inl e \<Rightarrow> Inl e | Inr hp \<Rightarrow>
       (case body p of Inl e \<Rightarrow> Inl e | Inr b \<Rightarrow> Inr (hp @ b)))"

section \<open>The specification's vocabulary\<close>

text \<open>
  The data model of the specification gives every header field a width: one byte for
  \<open>version\<close>, \<open>type\<close>, \<open>seq_no\<close> and \<open>flags\<close>, four bytes for \<open>session_id\<close> and
  \<open>length\<close>. \<open>header_in_range\<close> says that the six Python integers of a header fit
  these widths; \<open>pad_fields_in_range\<close> says it of the three fields that \<open>crypt\<close>
  reads. The constructor accepts any integer; on a field outside its width
  \<open>struct.pack\<close> raises \<open>struct.error\<close>, so these are the headers that have an
  encoding at all.
\<close>

definition header_in_range :: "TACACSHeader \<Rightarrow> bool" where
  "header_in_range h \<longleftrightarrow>
     0 \<le> version h \<and> version h \<le> 255 \<and> 0 \<le> type_field h \<and> type_field h \<le> 255 \<and>
     0 \<le> seq_no h \<and> seq_no h \<le> 255 \<and> 0 \<le> flags h \<and> flags h \<le> 255 \<and>
     0 \<le> session_id h \<and> session_id h \<le> 4294967295 \<and>
     0 \<le> length_field h \<and> length_field h \<le> 4294967295"

definition pad_fields_in_range :: "TACACSHeader \<Rightarrow> bool" where
  "pad_fields_in_range h \<longleftrightarrow>
     0 \<le> session_id h \<and> session_id h \<le> 4294967295 \<and>
     0 \<le> version h \<and> version h \<le> 255 \<and> 0 \<le> seq_no h \<and> seq_no h \<le> 255"

text \<open>
  Section 4.2 of the specification, in its words. Step 1, the seed: the session id as
  four bytes, most significant first, then the bytes of the secret, then the byte
  \<open>version\<close>, then the byte \<open>seq_no\<close>.
\<close>

definition spec_seed :: "int \<Rightarrow> string \<Rightarrow> int \<Rightarrow> int \<Rightarrow> byte list" where
  "spec_seed sid key ver sq =
     map (\<lambda>k. word_of_int (sid div 256 ^ k)) [3, 2, 1, 0] @ map of_char key
       @ [word_of_int ver] @ [word_of_int sq]"

text \<open>
  Steps 2 and 3: \<open>hash_chain seed i\<close> is the hash numbered \<open>i + 1\<close> in the
  specification, so \<open>hash_chain seed 0 = MD5(seed)\<close> and every later hash is the MD5 of
  the seed followed by the hash before it.
\<close>

fun hash_chain :: "byte list \<Rightarrow> nat \<Rightarrow> byte list" where
  "hash_chain seed 0 = md5_digest seed"
| "hash_chain seed (Suc i) = md5_digest (seed @ hash_chain seed i)"

text \<open>The first \<open>k\<close> hashes, concatenated.\<close>

definition chained :: "byte list \<Rightarrow> nat \<Rightarrow> byte list" where
  "chained seed k = concat (map (hash_chain seed) [0..<k])"

text \<open>
  Step 4: the first hash is always taken, and hashes of 16 bytes are added until the pad
  has the requested length: \<open>rounds len\<close> hashes in all.
\<close>

definition rounds :: "nat \<Rightarrow> nat" where
  "rounds len = max 1 ((len + 15) div 16)"

text \<open>Step 5: the pad, cut to the requested length.\<close>

definition derive_pad :: "int \<Rightarrow> string \<Rightarrow> int \<Rightarrow> int \<Rightarrow> nat \<Rightarrow> byte list" where
  "derive_pad sid key ver sq len = take len (chained (spec_seed sid key ver sq) (rounds len))"

section \<open>The digest against the test suite of RFC 1321\<close>

lemma md5_digest_empty:
  "md5_digest [] =
     [0xd4, 0x1d, 0x8c, 0xd9, 0x8f, 0x00, 0xb2, 0x04, 0xe9, 0x80, 0x09, 0x98, 0xec, 0xf8, 0x42, 0x7e]"
  by code_simp

lemma md5_digest_abc:
  "md5_digest (map of_char ''abc'') =
     [0x90, 0x01, 0x50, 0x98, 0x3c, 0xd2, 0x4f, 0xb0, 0xd6, 0x96, 0x3f, 0x7d, 0x28, 0xe1, 0x7f, 0x72]"
  by code_simp

section \<open>The struct formats\<close>

lemma uint_byte: "uint (word_of_int v :: byte) = v mod 256"
  by (simp add: uint_word_of_int)

lemma uint_byte_id: "0 \<le> v \<Longrightarrow> v \<le> 255 \<Longrightarrow> uint (word_of_int v :: byte) = v"
  by (simp add: uint_byte)

text \<open>Four bytes written by \<open>pack_I\<close> are read back by \<open>be32\<close>.\<close>

lemma be32_pack:
  assumes "0 \<le> v" and "v \<le> 4294967295"
  shows "be32 (word_of_int (v div 16777216)) (word_of_int (v div 65536))
           (word_of_int (v div 256)) (word_of_int v) = v"
proof -
  define a where "a = v div 256"
  define b where "b = a div 256"
  define c where "c = b div 256"
  have b: "v div 65536 = b"
    using zdiv_zmult2_eq [of 256 v 256] by (simp add: a_def b_def)
  have c: "v div 16777216 = c"
    using zdiv_zmult2_eq [of 256 "v div 256" 256] zdiv_zmult2_eq [of 65536 v 256]
    by (simp add: a_def b_def c_def)
  have v: "v = v mod 256 + 256 * a" by (simp add: a_def)
  have a: "a = a mod 256 + 256 * b" by (simp add: b_def)
  have b': "b = b mod 256 + 256 * c" by (simp add: c_def)
  have "0 \<le> c" and "c < 256"
    using assms c by simp_all
  then have c': "c mod 256 = c" by simp
  show ?thesis
    unfolding be32_def uint_byte b c a_def [symmetric] c'
    using v a b' by linarith
qed

lemma unpack_BBBB_short: "length xs \<noteq> 4 \<Longrightarrow> unpack_BBBB xs = Inl StructError"
  by (cases xs rule: unpack_BBBB.cases) simp_all

lemma unpack_II_short: "length xs \<noteq> 8 \<Longrightarrow> unpack_II xs = Inl StructError"
  by (cases xs rule: unpack_II.cases) simp_all

lemma unpack_BBBB_4:
  "length xs = 4 \<Longrightarrow>
     unpack_BBBB xs = Inr (uint (xs ! 0), uint (xs ! 1), uint (xs ! 2), uint (xs ! 3))"
  by (cases xs rule: unpack_BBBB.cases) simp_all

lemma unpack_II_8:
  "length xs = 8 \<Longrightarrow>
     unpack_II xs =
       Inr (be32 (xs ! 0) (xs ! 1) (xs ! 2) (xs ! 3), be32 (xs ! 4) (xs ! 5) (xs ! 6) (xs ! 7))"
  by (cases xs rule: unpack_II.cases) simp_all

section \<open>The header codec\<close>

lemma packed_in_range:
  assumes "header_in_range h"
  shows "packed h =
     Inr [word_of_int (version h), word_of_int (type_field h), word_of_int (seq_no h),
          word_of_int (flags h),
          word_of_int (session_id h div 16777216), word_of_int (session_id h div 65536),
          word_of_int (session_id h div 256), word_of_int (session_id h),
          word_of_int (length_field h div 16777216), word_of_int (length_field h div 65536),
          word_of_int (length_field h div 256), word_of_int (length_field h)]"
  using assms by (simp add: header_in_range_def packed_def pack_BBBB_def pack_B_def pack_I_def)

text \<open>With twelve bytes or more, decoding succeeds and reads the first twelve.\<close>

lemma unpacked_long:
  assumes "12 \<le> length raw"
  shows "unpacked raw =
     Inr \<lparr>version = uint (raw ! 0), type_field = uint (raw ! 1),
          session_id = be32 (raw ! 4) (raw ! 5) (raw ! 6) (raw ! 7),
          length_field = be32 (raw ! 8) (raw ! 9) (raw ! 10) (raw ! 11),
          seq_no = uint (raw ! 2), flags = uint (raw ! 3)\<rparr>"
proof -
  have a: "length (take 4 raw) = 4" and b: "length (take 8 (drop 4 raw)) = 8"
    using assms by simp_all
  have "take 4 raw \<noteq> []" using a by auto
  then show ?thesis
    using assms by (simp add: unpacked_def read_def unpack_BBBB_4 [OF a] unpack_II_8 [OF b])
qed

lemma unpacked_empty: "unpacked [] = Inl ValueError"
  by (simp add: unpacked_def read_def)

text \<open>With one to eleven bytes, one of the two calls of \<open>struct.unpack\<close> fails.\<close>

lemma unpacked_short:
  assumes "raw \<noteq> []" and "length raw < 12"
  shows "unpacked raw = Inl StructError"
proof (cases "length raw < 4")
  case True
  then have "length (take 4 raw) \<noteq> 4" by simp
  then show ?thesis
    using assms(1) by (simp add: unpacked_def read_def unpack_BBBB_short)
next
  case False
  then have a: "length (take 4 raw) = 4" by simp
  have "length (take 8 (drop 4 raw)) \<noteq> 8" using assms(2) by simp
  then show ?thesis
    using assms(1) by (simp add: unpacked_def read_def unpack_BBBB_4 [OF a] unpack_II_short)
qed

section \<open>The pad and the loops of crypt\<close>

text \<open>Every hash of the chain has 16 bytes, so \<open>k\<close> of them have \<open>16 * k\<close>.\<close>

lemma hash_chain_length: "length (hash_chain u i) = 16"
  by (cases i) (simp_all add: md5_digest_length)

lemma chained_length: "length (chained u k) = 16 * k"
  by (induction k) (simp_all add: chained_def hash_chain_length)

lemma chained_Suc: "chained u (Suc k) = chained u k @ hash_chain u k"
  by (simp add: chained_def)

text \<open>
  The invariant of the \<open>while True\<close> loop: when the pad holds the first \<open>k + 1\<close> hashes
  of the chain and \<open>hashed\<close> is the last of them, the loop returns the first
  \<open>(n + 15) div 16\<close> hashes.
\<close>

lemma pad_loop_chain:
  assumes "hashed = hash_chain u k" and "pad = chained u (Suc k)" and "length pad < n"
  shows "pad_loop u n hashed pad = chained u ((n + 15) div 16)"
  using assms
proof (induction u n hashed pad arbitrary: k rule: pad_loop.induct)
  case (1 u n hashed pad)
  let ?h = "md5_digest (u @ hashed)"
  have h: "?h = hash_chain u (Suc k)"
    using "1.prems"(1) by simp
  have p: "pad @ ?h = chained u (Suc (Suc k))"
    using "1.prems"(2) h by (simp add: chained_Suc)
  have lp: "length pad = 16 * Suc k"
    using "1.prems"(2) by (simp add: chained_length)
  have len: "length (pad @ ?h) = 16 * Suc (Suc k)"
    unfolding p by (rule chained_length)
  show ?case
  proof (cases "n \<le> length (pad @ ?h)")
    case True
    with len lp "1.prems"(3) have "(n + 15) div 16 = Suc (Suc k)"
      by simp
    with True p show ?thesis
      by (subst pad_loop.simps) (simp add: Let_def chained_length lp md5_digest_length)
  next
    case False
    then have lt: "length (pad @ ?h) < n" by simp
    have "pad_loop u n ?h (pad @ ?h) = chained u ((n + 15) div 16)"
      using "1.IH" [OF refl refl _ h p lt] False by simp
    with False show ?thesis
      by (subst pad_loop.simps) (simp add: Let_def p chained_length lp md5_digest_length)
  qed
qed

text \<open>Lines 53 to 61 compute the chain of the specification, \<open>rounds n\<close> hashes long.\<close>

lemma pseudo_pad_chain: "pseudo_pad u n = chained u (rounds n)"
proof (cases "16 < n")
  case True
  have "pad_loop u n (md5_digest u) (md5_digest u) = chained u ((n + 15) div 16)"
    by (rule pad_loop_chain [where k = 0]) (use True in \<open>simp_all add: chained_def md5_digest_length\<close>)
  moreover from True have "rounds n = (n + 15) div 16"
    by (simp add: rounds_def)
  ultimately show ?thesis
    using True by (simp add: pseudo_pad_def Let_def md5_digest_length)
next
  case False
  then have "rounds n = 1" by (simp add: rounds_def)
  with False show ?thesis
    by (simp add: pseudo_pad_def Let_def md5_digest_length chained_def)
qed

lemma pseudo_pad_length: "n \<le> length (pseudo_pad u n)"
  by (simp add: pseudo_pad_chain chained_length rounds_def)

text \<open>On a pad as long as the body, \<open>pop\<close> never fails and the loop is a pointwise XOR.\<close>

lemma xor_loop_map2:
  "length pad = length xs \<Longrightarrow> xor_loop xs pad acc = Inr (acc @ map2 (XOR) xs pad)"
  by (induction xs pad acc rule: xor_loop.induct) simp_all

lemma map2_xor_twice:
  "length pad = length xs \<Longrightarrow> map2 (XOR) (map2 (XOR) xs pad) pad = (xs :: byte list)"
  by (induction pad xs rule: list_induct2) (simp_all add: xor.assoc)

text \<open>\<open>crypt\<close>, once the three calls of \<open>struct.pack\<close> have succeeded.\<close>

lemma crypt_Inr:
  assumes "unhashed h S = Inr u"
  shows "crypt h B S = Inr (map2 (XOR) B (take (length B) (pseudo_pad u (length B))))"
  using assms pseudo_pad_length [of "length B" u]
  by (simp add: crypt_def Let_def xor_loop_map2)

lemma unhashed_in_range:
  assumes "pad_fields_in_range h"
  shows "unhashed h S = Inr (spec_seed (session_id h) S (version h) (seq_no h))"
  using assms
  by (simp add: pad_fields_in_range_def unhashed_def pack_I_def pack_B_def spec_seed_def six_b_def)

lemma crypt_in_range:
  assumes "pad_fields_in_range h"
  shows "crypt h B S =
     Inr (map2 (XOR) B (derive_pad (session_id h) S (version h) (seq_no h) (length B)))"
  by (simp add: crypt_Inr [OF unhashed_in_range [OF assms]] pseudo_pad_chain derive_pad_def)

lemma derive_pad_length: "length (derive_pad sid key ver sq n) = n"
  by (simp add: derive_pad_def chained_length rounds_def)

text \<open>
  \<open>rounds n\<close> is the least number of hashes, at least one, that gives \<open>n\<close> bytes;
  any larger number gives the same pad once it is cut.
\<close>

lemma rounds_least:
  "1 \<le> rounds n \<and> n \<le> 16 * rounds n \<and> (\<forall>k. 1 \<le> k \<and> n \<le> 16 * k \<longrightarrow> rounds n \<le> k)"
  by (auto simp: rounds_def)

lemma chained_add: "chained u (k + d) = chained u k @ concat (map (hash_chain u) [k..<k + d])"
  by (induction d) (simp_all add: chained_def)

lemma derive_pad_any_rounds:
  assumes "1 \<le> k" and "n \<le> 16 * k"
  shows "derive_pad sid key ver sq n = take n (chained (spec_seed sid key ver sq) k)"
proof -
  from assms rounds_least [of n] have "rounds n \<le> k" and n: "n \<le> 16 * rounds n"
    by blast+
  then obtain d where k: "k = rounds n + d"
    using le_Suc_ex by blast
  show ?thesis
    unfolding derive_pad_def k chained_add using n by (simp add: chained_length)
qed

text \<open>Outside the widths, \<open>struct.pack\<close> raises and there is no result.\<close>

lemma crypt_out_of_range:
  assumes "\<not> pad_fields_in_range h"
  shows "crypt h B S = Inl StructError"
  using assms
  by (auto simp: pad_fields_in_range_def crypt_def unhashed_def pack_I_def pack_B_def)

lemma packed_out_of_range:
  assumes "\<not> header_in_range h"
  shows "packed h = Inl StructError"
  using assms
  by (auto simp: header_in_range_def packed_def pack_BBBB_def pack_I_def pack_B_def)

lemma header_in_range_pad: "header_in_range h \<Longrightarrow> pad_fields_in_range h"
  by (simp add: header_in_range_def pad_fields_in_range_def)

text \<open>The first three hashes of the chain, written out.\<close>

lemma chained_3:
  "chained u 3 =
     md5_digest u @ md5_digest (u @ md5_digest u) @ md5_digest (u @ md5_digest (u @ md5_digest u))"
proof -
  have "chained u (Suc (Suc (Suc 0))) =
     md5_digest u @ md5_digest (u @ md5_digest u) @ md5_digest (u @ md5_digest (u @ md5_digest u))"
    by (simp add: chained_def)
  then show ?thesis by (simp add: eval_nat_numeral)
qed

section \<open>Claims on the header codec\<close>

text \<open>
  Claim C3, as amended. On fewer than four bytes \<open>unpacked\<close> never returns a header. It
  raises the \<open>ValueError\<close> of the header decoder on the empty input only: the test
  \<open>if raw_chars\<close> lets one to three bytes through, and \<open>struct.unpack('BBBB', ...)\<close>
  then raises \<open>struct.error\<close>.
\<close>

theorem unpacked_fewer_than_4_bytes:
  assumes "length raw < 4"
  shows "unpacked raw = Inl (if raw = [] then ValueError else StructError)"
  using assms by (cases "raw = []") (simp_all add: unpacked_empty unpacked_short)

text \<open>The theorem at a buffer of two bytes.\<close>

theorem unpacked_fewer_than_4_bytes_witness:
  "length [0xC0, 0x01 :: byte] < 4 \<and> unpacked [0xC0, 0x01] = Inl StructError"
  using unpacked_fewer_than_4_bytes [of "[0xC0, 0x01]"] by simp

text \<open>
  Claim C3 as it is stated fails on a buffer of one byte: it has fewer than four bytes,
  and decoding it raises \<open>struct.error\<close>, not the \<open>ValueError\<close>.
\<close>

theorem unpacked_one_byte_not_ValueError:
  "length [0xC0 :: byte] < 4 \<and> unpacked [0xC0] = Inl StructError \<and> unpacked [0xC0] \<noteq> Inl ValueError"
  by (simp add: unpacked_def read_def)

text \<open>
  Claim C4. For a header whose fields are within their ranges, \<open>packed\<close> returns twelve
  bytes and \<open>unpacked\<close> on these bytes returns the header, every field as it was.
\<close>

theorem unpack_pack_roundtrip:
  assumes "header_in_range h"
  shows "\<exists>bs. packed h = Inr bs \<and> length bs = 12 \<and> unpacked bs = Inr h"
  using assms
  by (simp add: packed_in_range unpacked_long be32_pack uint_byte_id header_in_range_def)

text \<open>The third scenario of the specification: version \<open>0xC1\<close>, session id 305419896.\<close>

theorem unpack_pack_roundtrip_witness:
  "header_in_range \<lparr>version = 0xC1, type_field = 1, session_id = 305419896, length_field = 0,
                     seq_no = 1, flags = 0\<rparr> \<and>
   (\<exists>bs. packed \<lparr>version = 0xC1, type_field = 1, session_id = 305419896, length_field = 0,
                  seq_no = 1, flags = 0\<rparr> = Inr bs \<and> length bs = 12 \<and>
         unpacked bs = Inr \<lparr>version = 0xC1, type_field = 1, session_id = 305419896,
                              length_field = 0, seq_no = 1, flags = 0\<rparr>)"
proof -
  have r: "header_in_range \<lparr>version = 0xC1, type_field = 1, session_id = 305419896,
                             length_field = 0, seq_no = 1, flags = 0\<rparr>"
    by (simp add: header_in_range_def)
  show ?thesis
    using r unpack_pack_roundtrip [OF r] by simp
qed

text \<open>
  Claim C5. For a header whose fields are within their ranges, \<open>packed\<close> returns exactly
  twelve bytes: byte 0 is \<open>version\<close>, byte 1 \<open>type\<close>, byte 2 \<open>seq_no\<close>, byte 3
  \<open>flags\<close>; bytes 4 to 7 are \<open>session_id\<close> and bytes 8 to 11 are \<open>length\<close>, each as
  an unsigned 32-bit number with the most significant byte first.
\<close>

theorem packed_layout:
  assumes "header_in_range h"
  shows "\<exists>bs. packed h = Inr bs \<and> length bs = 12 \<and>
           uint (bs ! 0) = version h \<and> uint (bs ! 1) = type_field h \<and>
           uint (bs ! 2) = seq_no h \<and> uint (bs ! 3) = flags h \<and>
           uint (bs ! 4) * 16777216 + uint (bs ! 5) * 65536 + uint (bs ! 6) * 256 + uint (bs ! 7)
             = session_id h \<and>
           uint (bs ! 8) * 16777216 + uint (bs ! 9) * 65536 + uint (bs ! 10) * 256 + uint (bs ! 11)
             = length_field h"
proof -
  have s: "0 \<le> session_id h" "session_id h \<le> 4294967295"
    and l: "0 \<le> length_field h" "length_field h \<le> 4294967295"
    using assms by (simp_all add: header_in_range_def)
  show ?thesis
    using assms be32_pack [OF s] be32_pack [OF l]
    by (simp add: packed_in_range uint_byte_id header_in_range_def be32_def)
qed

text \<open>The layout of one header, byte by byte.\<close>

theorem packed_layout_witness:
  "header_in_range \<lparr>version = 0xC0, type_field = 2, session_id = 0x01020304, length_field = 6,
                     seq_no = 3, flags = 1\<rparr> \<and>
   packed \<lparr>version = 0xC0, type_field = 2, session_id = 0x01020304, length_field = 6,
           seq_no = 3, flags = 1\<rparr> = Inr [0xC0, 2, 3, 1, 1, 2, 3, 4, 0, 0, 0, 6]"
proof -
  have r: "header_in_range \<lparr>version = 0xC0, type_field = 2, session_id = 0x01020304,
                             length_field = 6, seq_no = 3, flags = 1\<rparr>"
    by (simp add: header_in_range_def)
  from packed_layout [OF r] obtain bs where
    "packed \<lparr>version = 0xC0, type_field = 2, session_id = 0x01020304, length_field = 6,
             seq_no = 3, flags = 1\<rparr> = Inr bs" by blast
  moreover have "packed \<lparr>version = 0xC0, type_field = 2, session_id = 0x01020304, length_field = 6,
             seq_no = 3, flags = 1\<rparr> = Inr [0xC0, 2, 3, 1, 1, 2, 3, 4, 0, 0, 0, 6]"
    by (simp add: packed_def pack_BBBB_def pack_B_def pack_I_def)
  ultimately show ?thesis using r by simp
qed

text \<open>
  Claim C8. Decoding reads the first twelve bytes and nothing after them: for a prefix
  \<open>P\<close> of twelve bytes and any two suffixes, decoding \<open>P\<close> followed by either suffix
  succeeds with the header that decoding \<open>P\<close> alone gives.
\<close>

theorem unpacked_reads_first_12_bytes:
  assumes "length P = 12"
  shows "(\<exists>h. unpacked P = Inr h) \<and> unpacked (P @ S1) = unpacked P \<and> unpacked (P @ S2) = unpacked P"
  using assms by (simp add: unpacked_long nth_append)

text \<open>Twelve bytes followed by two more, and by nothing.\<close>

theorem unpacked_reads_first_12_bytes_witness:
  "length [1, 2, 3, 4, 5, 6, 7, 8, 9, 10, 11, 12 :: byte] = 12 \<and>
   unpacked ([1, 2, 3, 4, 5, 6, 7, 8, 9, 10, 11, 12] @ [0xFF, 0xFE]) =
     unpacked [1, 2, 3, 4, 5, 6, 7, 8, 9, 10, 11, 12] \<and>
   unpacked ([1, 2, 3, 4, 5, 6, 7, 8, 9, 10, 11, 12] @ []) =
     unpacked [1, 2, 3, 4, 5, 6, 7, 8, 9, 10, 11, 12] \<and>
   (\<exists>h. unpacked [1, 2, 3, 4, 5, 6, 7, 8, 9, 10, 11, 12] = Inr h)"
  using unpacked_reads_first_12_bytes [of "[1, 2, 3, 4, 5, 6, 7, 8, 9, 10, 11, 12]" "[0xFF, 0xFE]" "[]"]
  by simp

text \<open>
  Claim C9. On a buffer of at least four and fewer than twelve bytes \<open>unpacked\<close> returns
  no header and does not raise its \<open>ValueError\<close>: \<open>struct.unpack('!II', ...)\<close> raises
  \<open>struct.error\<close>. Decoding returns a header exactly when the buffer holds at least
  twelve bytes.
\<close>

theorem unpacked_succeeds_iff_12_bytes:
  "(4 \<le> length raw \<and> length raw < 12 \<longrightarrow> unpacked raw = Inl StructError) \<and>
   ((\<exists>h. unpacked raw = Inr h) \<longleftrightarrow> 12 \<le> length raw)"
proof -
  have "unpacked raw = Inl StructError" if "4 \<le> length raw" "length raw < 12"
    using that by (intro unpacked_short) auto
  moreover have "\<exists>h. unpacked raw = Inr h" if "12 \<le> length raw"
    using that by (simp add: unpacked_long)
  moreover have "12 \<le> length raw" if "unpacked raw = Inr h" for h
  proof (rule ccontr)
    assume "\<not> 12 \<le> length raw"
    then have "length raw < 12" by simp
    then have "unpacked raw = Inl ValueError \<or> unpacked raw = Inl StructError"
      using unpacked_empty unpacked_short by (cases "raw = []") simp_all
    with that show False by auto
  qed
  ultimately show ?thesis by blast
qed

text \<open>A buffer of five bytes.\<close>

theorem unpacked_succeeds_iff_12_bytes_witness:
  "4 \<le> length [0xC0, 1, 1, 0, 0 :: byte] \<and> length [0xC0, 1, 1, 0, 0 :: byte] < 12 \<and>
   unpacked [0xC0, 1, 1, 0, 0] = Inl StructError \<and>
   \<not> (\<exists>h. unpacked [0xC0, 1, 1, 0, 0] = Inr h)"
  using unpacked_succeeds_iff_12_bytes [of "[0xC0, 1, 1, 0, 0]"] by simp

section \<open>Claims on the obfuscation\<close>

text \<open>
  Claim C1. For a header whose \<open>session_id\<close>, \<open>version\<close> and \<open>seq_no\<close> fit their
  widths, \<open>crypt\<close> returns the body combined by XOR, byte \<open>i\<close> of the body with byte
  \<open>i\<close> of the pad, with the pad of the specification: the chained MD5 hashes of the
  seed (session id as four big-endian bytes, secret, version, sequence number), cut to
  the length of the body, which is the length of that pad. For a body of 40 bytes the
  code computes exactly three hashes, \<open>h1 = MD5(seed)\<close>, \<open>h2 = MD5(seed || h1)\<close> and
  \<open>h3 = MD5(seed || h2)\<close>, and the pad is the first 40 bytes of \<open>h1 || h2 || h3\<close>.
\<close>

theorem crypt_is_xor_with_chained_md5_pad:
  assumes "pad_fields_in_range h"
  shows "crypt h B S =
           Inr (map2 (XOR) B (derive_pad (session_id h) S (version h) (seq_no h) (length B))) \<and>
         length (derive_pad (session_id h) S (version h) (seq_no h) (length B)) = length B \<and>
         (length B = 40 \<longrightarrow>
            (let seed = spec_seed (session_id h) S (version h) (seq_no h);
                 h1 = md5_digest seed;
                 h2 = md5_digest (seed @ h1);
                 h3 = md5_digest (seed @ h2)
             in unhashed h S = Inr seed \<and> pseudo_pad seed 40 = h1 @ h2 @ h3 \<and>
                crypt h B S = Inr (map2 (XOR) B (take 40 (h1 @ h2 @ h3)))))"
proof -
  let ?seed = "spec_seed (session_id h) S (version h) (seq_no h)"
  have c: "crypt h B S =
      Inr (map2 (XOR) B (derive_pad (session_id h) S (version h) (seq_no h) (length B)))"
    by (rule crypt_in_range [OF assms])
  have r: "rounds 40 = 3" by (simp add: rounds_def)
  have p: "pseudo_pad ?seed 40 = chained ?seed 3"
    by (simp add: pseudo_pad_chain r)
  have d: "derive_pad (session_id h) S (version h) (seq_no h) 40 = take 40 (chained ?seed 3)"
    by (simp add: derive_pad_def r)
  show ?thesis
    unfolding c
    by (simp add: derive_pad_length unhashed_in_range [OF assms] Let_def p d chained_3)
qed

text \<open>A body of 40 zero bytes under the secret \<open>testkey\<close>.\<close>

theorem crypt_is_xor_with_chained_md5_pad_witness:
  "pad_fields_in_range \<lparr>version = 0xC0, type_field = 1, session_id = 1, length_field = 40,
                         seq_no = 1, flags = 0\<rparr> \<and>
   length (replicate 40 (0 :: byte)) = 40 \<and>
   (let seed = spec_seed 1 ''testkey'' 0xC0 1;
        h1 = md5_digest seed;
        h2 = md5_digest (seed @ h1);
        h3 = md5_digest (seed @ h2)
    in crypt \<lparr>version = 0xC0, type_field = 1, session_id = 1, length_field = 40,
               seq_no = 1, flags = 0\<rparr> (replicate 40 0) ''testkey'' =
         Inr (map2 (XOR) (replicate 40 0) (take 40 (h1 @ h2 @ h3))))"
proof -
  have r: "pad_fields_in_range \<lparr>version = 0xC0, type_field = 1, session_id = 1,
                                 length_field = 40, seq_no = 1, flags = 0\<rparr>"
    by (simp add: pad_fields_in_range_def)
  have l: "length (replicate 40 (0 :: byte)) = 40"
    by simp
  note t = crypt_is_xor_with_chained_md5_pad
    [OF r, of "replicate 40 0" "''testkey''", unfolded TACACSHeader.select_convs Let_def]
  show ?thesis
    unfolding Let_def using r l t by blast
qed

text \<open>
  Claim C2. Applying \<open>crypt\<close> twice with the same header and secret returns the
  original body: the first call returns some \<open>C\<close>, and \<open>crypt\<close> on \<open>C\<close> returns
  \<open>B\<close>.
\<close>

theorem crypt_involution:
  assumes "pad_fields_in_range h"
  shows "\<exists>C. crypt h B S = Inr C \<and> crypt h C S = Inr B"
  by (simp add: crypt_in_range [OF assms] derive_pad_length map2_xor_twice)

text \<open>The first scenario of the specification: the body \<open>hello\<close>.\<close>

theorem crypt_involution_witness:
  "pad_fields_in_range \<lparr>version = 0xC0, type_field = 1, session_id = 1, length_field = 5,
                         seq_no = 1, flags = 0\<rparr> \<and>
   (\<exists>C. crypt \<lparr>version = 0xC0, type_field = 1, session_id = 1, length_field = 5,
                seq_no = 1, flags = 0\<rparr> (map of_char ''hello'') ''testkey'' = Inr C \<and>
        crypt \<lparr>version = 0xC0, type_field = 1, session_id = 1, length_field = 5,
                seq_no = 1, flags = 0\<rparr> C ''testkey'' = Inr (map of_char ''hello''))"
proof -
  have r: "pad_fields_in_range \<lparr>version = 0xC0, type_field = 1, session_id = 1,
                                 length_field = 5, seq_no = 1, flags = 0\<rparr>"
    by (simp add: pad_fields_in_range_def)
  show ?thesis
    using r crypt_involution [OF r, of "map of_char ''hello''" "''testkey''"] by blast
qed

text \<open>
  Claim C6. \<open>crypt\<close> preserves the length of the body, the empty body included, and
  the pad is cut to exactly the requested length, for every length: both the pad of
  the specification and the pad that lines 53 to 63 of the code compute.
\<close>

theorem crypt_preserves_length:
  assumes "pad_fields_in_range h"
  shows "(\<exists>C. crypt h B S = Inr C \<and> length C = length B) \<and> crypt h [] S = Inr [] \<and>
         length (derive_pad (session_id h) S (version h) (seq_no h) n) = n \<and>
         length (take n (pseudo_pad u n)) = n"
  using pseudo_pad_length [of n u]
  by (simp add: crypt_in_range [OF assms] derive_pad_length)

text \<open>A body of five bytes and the empty body.\<close>

theorem crypt_preserves_length_witness:
  "pad_fields_in_range \<lparr>version = 0xC0, type_field = 1, session_id = 1, length_field = 5,
                         seq_no = 1, flags = 0\<rparr> \<and>
   (\<exists>C. crypt \<lparr>version = 0xC0, type_field = 1, session_id = 1, length_field = 5,
                seq_no = 1, flags = 0\<rparr> [0x68, 0x65, 0x6c, 0x6c, 0x6f] ''testkey'' = Inr C \<and>
        length C = 5) \<and>
   crypt \<lparr>version = 0xC0, type_field = 1, session_id = 1, length_field = 5,
           seq_no = 1, flags = 0\<rparr> [] ''testkey'' = Inr []"
proof -
  have r: "pad_fields_in_range \<lparr>version = 0xC0, type_field = 1, session_id = 1,
                                 length_field = 5, seq_no = 1, flags = 0\<rparr>"
    by (simp add: pad_fields_in_range_def)
  have l: "length [0x68, 0x65, 0x6c, 0x6c, 0x6f :: byte] = 5"
    by simp
  show ?thesis
    using r crypt_preserves_length [OF r, of "[0x68, 0x65, 0x6c, 0x6c, 0x6f]" "''testkey''" 0 "[]"]
    unfolding l by blast
qed

text \<open>
  Claim C10. The result of \<open>crypt\<close> does not depend on the fields \<open>type\<close>,
  \<open>flags\<close> and \<open>length\<close> of the header: two headers with the same \<open>session_id\<close>,
  \<open>version\<close> and \<open>seq_no\<close> give the same result, also when that result is an
  exception.
\<close>

theorem crypt_ignores_type_flags_length:
  assumes "session_id h1 = session_id h2" and "version h1 = version h2"
    and "seq_no h1 = seq_no h2"
  shows "crypt h1 B S = crypt h2 B S"
  unfolding crypt_def unhashed_def assms by (rule refl)

text \<open>Two headers that differ in \<open>type\<close>, \<open>flags\<close> and \<open>length\<close>.\<close>

theorem crypt_ignores_type_flags_length_witness:
  "crypt \<lparr>version = 0xC0, type_field = 1, session_id = 7, length_field = 5,
           seq_no = 1, flags = 0\<rparr> [0x68, 0x69] ''testkey'' =
   crypt \<lparr>version = 0xC0, type_field = 3, session_id = 7, length_field = 900,
           seq_no = 1, flags = 4\<rparr> [0x68, 0x69] ''testkey''"
  using crypt_ignores_type_flags_length
    [of "\<lparr>version = 0xC0, type_field = 1, session_id = 7, length_field = 5,
           seq_no = 1, flags = 0\<rparr>"
        "\<lparr>version = 0xC0, type_field = 3, session_id = 7, length_field = 900,
           seq_no = 1, flags = 4\<rparr>" "[0x68, 0x69]" "''testkey''"]
  by simp

section \<open>Claims on the packet\<close>

text \<open>
  Claim C7. For a packet whose header fields fit their widths, \<open>__bytes__\<close> returns
  the twelve bytes of \<open>header.packed\<close> followed by the transmitted body, which is
  \<open>crypt(header, body_bytes, secret)\<close> when a secret is set and \<open>body_bytes\<close>
  unchanged when the secret is \<open>None\<close>.
\<close>

theorem packet_bytes_header_then_body:
  assumes "header_in_range (header p)"
  shows "\<exists>hp b. packed (header p) = Inr hp \<and> length hp = 12 \<and> body p = Inr b \<and>
           packet_bytes p = Inr (hp @ b) \<and>
           (case secret p of None \<Rightarrow> b = body_bytes p
            | Some s \<Rightarrow> crypt (header p) (body_bytes p) s = Inr b)"
proof (cases "secret p")
  case None
  then show ?thesis
    by (simp add: packet_bytes_def body_def encrypted_def packed_in_range [OF assms])
next
  case (Some s)
  then show ?thesis
    by (simp add: packet_bytes_def body_def encrypted_def packet_crypt_def
        packed_in_range [OF assms] crypt_in_range [OF header_in_range_pad [OF assms]])
qed

text \<open>One packet without a secret and one with the secret \<open>testkey\<close>.\<close>

theorem packet_bytes_header_then_body_witness:
  "header_in_range \<lparr>version = 0xC0, type_field = 1, session_id = 1, length_field = 2,
                     seq_no = 1, flags = 0\<rparr> \<and>
   packet_bytes \<lparr>header = \<lparr>version = 0xC0, type_field = 1, session_id = 1, length_field = 2,
                            seq_no = 1, flags = 0\<rparr>,
                 body_bytes = [0x68, 0x69], secret = None\<rparr> =
     Inr ([0xC0, 1, 1, 0, 0, 0, 0, 1, 0, 0, 0, 2] @ [0x68, 0x69]) \<and>
   (\<exists>hp b. packet_bytes \<lparr>header = \<lparr>version = 0xC0, type_field = 1, session_id = 1,
                                     length_field = 2, seq_no = 1, flags = 0\<rparr>,
                          body_bytes = [0x68, 0x69], secret = Some ''testkey''\<rparr> = Inr (hp @ b) \<and>
           length hp = 12 \<and>
           crypt \<lparr>version = 0xC0, type_field = 1, session_id = 1, length_field = 2,
                   seq_no = 1, flags = 0\<rparr> [0x68, 0x69] ''testkey'' = Inr b)"
proof -
  let ?h = "\<lparr>version = 0xC0, type_field = 1, session_id = 1, length_field = 2,
             seq_no = 1, flags = 0\<rparr>"
  have r: "header_in_range ?h"
    by (simp add: header_in_range_def)
  have p: "packed ?h = Inr [0xC0, 1, 1, 0, 0, 0, 0, 1, 0, 0, 0, 2]"
    by (simp add: packed_def pack_BBBB_def pack_B_def pack_I_def)
  have a: "packet_bytes \<lparr>header = ?h, body_bytes = [0x68, 0x69], secret = None\<rparr> =
      Inr ([0xC0, 1, 1, 0, 0, 0, 0, 1, 0, 0, 0, 2] @ [0x68, 0x69])"
    using packet_bytes_header_then_body
      [of "\<lparr>header = ?h, body_bytes = [0x68, 0x69], secret = None\<rparr>"] r p
    by auto
  have b: "\<exists>hp b. packet_bytes \<lparr>header = ?h, body_bytes = [0x68, 0x69],
                                  secret = Some ''testkey''\<rparr> = Inr (hp @ b) \<and>
           length hp = 12 \<and> crypt ?h [0x68, 0x69] ''testkey'' = Inr b"
    using packet_bytes_header_then_body
      [of "\<lparr>header = ?h, body_bytes = [0x68, 0x69], secret = Some ''testkey''\<rparr>"] r
    by auto
  show ?thesis using r a b by blast
qed

section \<open>The scenarios of the specification, evaluated\<close>

text \<open>
  The first scenario: session id 1, secret \<open>testkey\<close>, version \<open>0xC0\<close>, sequence
  number 1 and the body \<open>hello\<close>; the five bytes that the code returns.
\<close>

lemma scenario_hello:
  "crypt \<lparr>version = 0xC0, type_field = 1, session_id = 1, length_field = 5, seq_no = 1, flags = 0\<rparr>
     (map of_char ''hello'') ''testkey'' = Inr [96, 55, 163, 18, 152]"
  by code_simp

text \<open>The second scenario: a body of 40 zero bytes shows the pad of three hashes itself.\<close>

lemma scenario_40_bytes:
  "crypt \<lparr>version = 0xC0, type_field = 1, session_id = 1, length_field = 40, seq_no = 1, flags = 0\<rparr>
     (replicate 40 0) ''testkey'' =
   Inr [8, 82, 207, 126, 247, 117, 189, 121, 105, 97, 102, 13, 152, 87, 162, 194,
        96, 99, 107, 236, 231, 139, 86, 188, 194, 67, 241, 42, 25, 233, 8, 222,
        144, 40, 202, 96, 43, 137, 42, 21]"
  by code_simp

text \<open>The third scenario: the two halves of the version byte \<open>0xC1\<close>.\<close>

lemma scenario_version:
  "version_max \<lparr>version = 0xC1, type_field = 1, session_id = 305419896, length_field = 0,
                 seq_no = 1, flags = 0\<rparr> = 12 \<and>
   version_min \<lparr>version = 0xC1, type_field = 1, session_id = 305419896, length_field = 0,
                 seq_no = 1, flags = 0\<rparr> = 1"
  by (simp add: version_max_def version_min_def)

end
